theory Spec2Isabelle
  imports Main "HOL-Library.Sublist" "HOL-Library.Multiset" "HOL-Library.Signed_Division"
    "HOL-Library.Char_ord" "HOL-Library.List_Lexorder" "HOL-Library.Product_Lexorder"
begin

section \<open>Instants of the Go time package\<close>

text \<open>
  A \<open>time.Time\<close> without monotonic reading is a count of seconds since January 1 of
  year 1, 00:00:00 UTC (an int64, field \<open>ext\<close>) and a nanosecond offset in
  \<open>[0, 999999999]\<close>. Every instant of the importer and of the store went through
  \<open>.UTC()\<close>, which drops the monotonic reading and sets the location; the location plays
  no part in \<open>IsZero\<close>, \<open>Equal\<close>, \<open>Before\<close> and \<open>After\<close>, so it is not a field here.
\<close>

record Time =
  ext :: int
  nsec :: int

definition zeroTime :: Time where
  "zeroTime = \<lparr>ext = 0, nsec = 0\<rparr>"

definition IsZero :: "Time \<Rightarrow> bool" where
  "IsZero t \<longleftrightarrow> ext t = 0 \<and> nsec t = 0"

definition Equal :: "Time \<Rightarrow> Time \<Rightarrow> bool" where
  "Equal t u \<longleftrightarrow> ext t = ext u \<and> nsec t = nsec u"

definition Before :: "Time \<Rightarrow> Time \<Rightarrow> bool" where
  "Before t u \<longleftrightarrow> ext t < ext u \<or> (ext t = ext u \<and> nsec t < nsec u)"

definition After :: "Time \<Rightarrow> Time \<Rightarrow> bool" where
  "After t u \<longleftrightarrow> ext t > ext u \<or> (ext t = ext u \<and> nsec t > nsec u)"

definition UTC :: "Time \<Rightarrow> Time" where
  "UTC t = t"

text \<open>Two's complement wrap-around of int64 arithmetic.\<close>

definition int64 :: "int \<Rightarrow> int" where
  "int64 x = (x + 2 ^ 63) mod 2 ^ 64 - 2 ^ 63"

text \<open>Seconds from year 1 to 1970: \<open>(1969*365 + 1969/4 - 1969/100 + 1969/400) * 86400\<close>.\<close>

definition unixToInternal :: int where
  "unixToInternal = 62135596800"

text \<open>
  \<open>time.Unix(sec, nsec)\<close>: the nanoseconds are brought into range with Go's truncating
  division, then the seconds are shifted to the internal origin.
\<close>

definition Unix :: "int \<Rightarrow> int \<Rightarrow> Time" where
  "Unix s n =
     (if n < 0 \<or> n \<ge> 1000000000 then
        (let q = n sdiv 1000000000;
             s1 = int64 (s + q);
             n1 = int64 (n - int64 (q * 1000000000))
         in if n1 < 0
            then \<lparr>ext = int64 (int64 (s1 - 1) + unixToInternal), nsec = int64 (n1 + 1000000000)\<rparr>
            else \<lparr>ext = int64 (s1 + unixToInternal), nsec = n1\<rparr>)
      else \<lparr>ext = int64 (s + unixToInternal), nsec = n\<rparr>)"

subsection \<open>Formatting\<close>

text \<open>
  \<open>Format\<close> with the layouts \<open>2006-01-02\<close> and \<open>20060102150405\<close> prints the proleptic
  Gregorian date and the time of day of the instant in UTC. The date is computed from
  the day count since 0001-01-01 by the usual era decomposition (400-year cycles of
  146097 days, years starting in March).
\<close>

definition civil :: "int \<Rightarrow> int \<times> int \<times> int" where
  "civil days =
     (let z = days + 306;
          era = z div 146097;
          doe = z mod 146097;
          yoe = (doe - doe div 1460 + doe div 36524 - doe div 146096) div 365;
          doy = doe - (365 * yoe + yoe div 4 - yoe div 100);
          mp = (5 * doy + 2) div 153;
          d = doy - (153 * mp + 2) div 5 + 1;
          m = (if mp < 10 then mp + 3 else mp - 9);
          y = yoe + era * 400 + (if m \<le> 2 then 1 else 0)
      in (y, m, d))"

definition digit :: "nat \<Rightarrow> char" where
  "digit d = char_of (48 + d mod 10)"

function digits :: "nat \<Rightarrow> string" where
  "digits n = (if n < 10 then [digit n] else digits (n div 10) @ [digit n])"
  by pat_completeness auto
termination
  by (relation "measure id") auto

text \<open>\<open>appendInt\<close>: a sign for negative numbers, then the digits padded with zeros.\<close>

definition appendInt :: "int \<Rightarrow> nat \<Rightarrow> string" where
  "appendInt x width =
     (let ds = digits (nat \<bar>x\<bar>)
      in (if x < 0 then ''-'' else '''') @ replicate (width - length ds) (CHR ''0'') @ ds)"

definition FormatDate :: "Time \<Rightarrow> string" where
  "FormatDate t =
     (case civil (ext t div 86400) of (y, m, d) \<Rightarrow>
        appendInt y 4 @ ''-'' @ appendInt m 2 @ ''-'' @ appendInt d 2)"

definition FormatStamp :: "Time \<Rightarrow> string" where
  "FormatStamp t =
     (case civil (ext t div 86400) of (y, m, d) \<Rightarrow>
        (let sod = ext t mod 86400
         in appendInt y 4 @ appendInt m 2 @ appendInt d 2 @
            appendInt (sod div 3600) 2 @ appendInt (sod mod 3600 div 60) 2 @
            appendInt (sod mod 60) 2))"

section \<open>Strings of the Go strings package\<close>

text \<open>
  A Go string is a sequence of bytes; \<open>len\<close> and slicing count bytes. White space is
  what \<open>unicode.IsSpace\<close> accepts, in its UTF-8 encoding: the six ASCII characters,
  U+0085, U+00A0, U+1680, U+2000 to U+200A, U+2028, U+2029, U+202F, U+205F and U+3000.
\<close>

definition spaceRunes :: "string list" where
  "spaceRunes =
     [[CHR 0x09], [CHR 0x0A], [CHR 0x0B], [CHR 0x0C], [CHR 0x0D], [CHR 0x20],
      [CHR 0xC2, CHR 0x85], [CHR 0xC2, CHR 0xA0], [CHR 0xE1, CHR 0x9A, CHR 0x80],
      [CHR 0xE2, CHR 0x80, CHR 0x80], [CHR 0xE2, CHR 0x80, CHR 0x81],
      [CHR 0xE2, CHR 0x80, CHR 0x82], [CHR 0xE2, CHR 0x80, CHR 0x83],
      [CHR 0xE2, CHR 0x80, CHR 0x84], [CHR 0xE2, CHR 0x80, CHR 0x85],
      [CHR 0xE2, CHR 0x80, CHR 0x86], [CHR 0xE2, CHR 0x80, CHR 0x87],
      [CHR 0xE2, CHR 0x80, CHR 0x88], [CHR 0xE2, CHR 0x80, CHR 0x89],
      [CHR 0xE2, CHR 0x80, CHR 0x8A], [CHR 0xE2, CHR 0x80, CHR 0xA8],
      [CHR 0xE2, CHR 0x80, CHR 0xA9], [CHR 0xE2, CHR 0x80, CHR 0xAF],
      [CHR 0xE2, CHR 0x81, CHR 0x9F], [CHR 0xE3, CHR 0x80, CHR 0x80]]"

text \<open>The width in bytes of the rune of \<open>rs\<close> that starts the string, 0 if none does.\<close>

definition runeWidth :: "string list \<Rightarrow> string \<Rightarrow> nat" where
  "runeWidth rs s = (case find (\<lambda>r. prefix r s) rs of None \<Rightarrow> 0 | Some r \<Rightarrow> length r)"

function dropRunes :: "string list \<Rightarrow> string \<Rightarrow> string" where
  "dropRunes rs s =
     (if runeWidth rs s = 0 \<or> s = [] then s else dropRunes rs (drop (runeWidth rs s) s))"
  by pat_completeness auto
termination
  by (relation "measure (\<lambda>(rs, s). length s)") auto

text \<open>
  \<open>TrimLeftFunc\<close> decodes runes from the front, \<open>TrimRightFunc\<close> from the back (the
  last rune starts at the nearest byte that is not a continuation byte, which for the
  white-space runes is their first byte); \<open>TrimSpace\<close> trims the left side first.
\<close>

definition TrimLeft :: "string \<Rightarrow> string" where
  "TrimLeft s = dropRunes spaceRunes s"

definition TrimRight :: "string \<Rightarrow> string" where
  "TrimRight s = rev (dropRunes (map rev spaceRunes) (rev s))"

definition TrimSpace :: "string \<Rightarrow> string" where
  "TrimSpace s = TrimRight (TrimLeft s)"

text \<open>
  \<open>strings.ToLower\<close> on the ASCII letters. Bytes from 0x80 on are left as they are: the
  Unicode case tables are outside this development.
\<close>

definition lowerByte :: "char \<Rightarrow> char" where
  "lowerByte c =
     (if (65::nat) \<le> of_char c \<and> of_char c \<le> (90::nat) then char_of (of_char c + (32::nat)) else c)"

definition ToLower :: "string \<Rightarrow> string" where
  "ToLower s = map lowerByte s"

text \<open>\<open>strings.ReplaceAll(s, " ", "-")\<close>.\<close>

definition ReplaceSpaces :: "string \<Rightarrow> string" where
  "ReplaceSpaces s = map (\<lambda>c. if c = CHR '' '' then CHR ''-'' else c) s"

definition HasSuffix :: "string \<Rightarrow> string \<Rightarrow> bool" where
  "HasSuffix s suf \<longleftrightarrow> suffix suf s"

section \<open>The export and the records\<close>

text \<open>
  The structs of the importer and of the models package. Field names that several
  structs share carry a prefix here: \<open>raw\<close> for \<open>exportConversation\<close>, \<open>node\<close> for
  \<open>exportNode\<close>, \<open>xm\<close> for \<open>exportMessage\<close>, \<open>Msg\<close> for \<open>models.Message\<close>.

  A \<open>*float64\<close> timestamp is \<open>None\<close> when nil. The number itself enters as the two
  int64 values that \<open>toTime\<close> obtains from it: \<open>whole = int64(seconds)\<close> and
  \<open>fracNanos = int64(frac*1e9)\<close> for \<open>seconds, frac := math.Modf(v)\<close>; the rounding
  of the floating-point product is not part of the development. The number \<open>0.0\<close> is
  \<open>\<lparr>whole = 0, fracNanos = 0\<rparr>\<close>, \<open>1000.0\<close> is \<open>\<lparr>whole = 1000, fracNanos = 0\<rparr>\<close>.

  A content part is a raw JSON value: either a JSON string, which \<open>json.Unmarshal\<close>
  decodes into the Go string, or anything else.
\<close>

record float64 =
  whole :: int
  fracNanos :: int

datatype RawMessage = JString string | JOther

record exportAuthor =
  Role :: string

record exportContent =
  ContentType :: string
  Parts :: "RawMessage list"

record exportMessage =
  xmID :: string
  xmAuthor :: exportAuthor
  CreateTime :: "float64 option"
  UpdateTime :: "float64 option"
  xmContent :: exportContent

record exportNode =
  nodeID :: string
  Parent :: string
  Children :: "string list"
  nodeMessage :: "exportMessage option"

text \<open>
  \<open>Mapping\<close> is a Go map. It is kept as the list of its entries in the order in which
  the \<open>range\<close> loop of the run at hand visits them (Go leaves that order open); look-up
  is \<open>map_of\<close>. The keys of a Go map are distinct.
\<close>

record exportConversation =
  rawID :: string
  ConversationID :: string
  rawTitle :: string
  rawCreateTime :: "float64 option"
  rawUpdateTime :: "float64 option"
  CurrentNode :: string
  Mapping :: "(string \<times> exportNode) list"

record Message =
  MsgID :: string
  Author :: string
  Content :: string
  MsgCreatedAt :: Time

record Conversation =
  ID :: string
  Title :: string
  Summary :: string
  DateStarted :: string
  DateEnded :: string
  SourceID :: string
  Messages :: "Message list"
  CreatedAt :: Time
  UpdatedAt :: Time

datatype error = IOError | MalformedExport | ErrNotFound

text \<open>The variables that the loop of \<open>convertConversation\<close> carries from node to node.\<close>

record acc =
  earliest :: Time
  latest :: Time
  hasEarliest :: bool
  hasLatest :: bool
  firstUser :: string
  firstAssistant :: string
  messages :: "Message list"

text \<open>The store: its file path and the map from identifier to record.\<close>

record Store =
  storePath :: string
  conversations :: "string \<rightharpoonup> Conversation"

section \<open>The importer\<close>

subsection \<open>Timestamps\<close>

definition toTime :: "float64 option \<Rightarrow> Time option" where
  "toTime value =
     (case value of
        None \<Rightarrow> None
      | Some v \<Rightarrow>
          (let t = UTC (Unix (whole v) (fracNanos v))
           in if IsZero t then None else Some t))"

definition timestampOrZero :: "float64 option \<Rightarrow> Time" where
  "timestampOrZero value = (case toTime value of Some t \<Rightarrow> t | None \<Rightarrow> zeroTime)"

definition GetCreateTime :: "exportMessage option \<Rightarrow> float64 option" where
  "GetCreateTime m = (case m of None \<Rightarrow> None | Some msg \<Rightarrow> CreateTime msg)"

subsection \<open>Text\<close>

text \<open>The loop of \<open>collectStringParts\<close>, with the builder's content as accumulator.\<close>

fun collectLoop :: "string \<Rightarrow> RawMessage list \<Rightarrow> string" where
  "collectLoop builder [] = builder"
| "collectLoop builder (JOther # parts) = collectLoop builder parts"
| "collectLoop builder (JString text # parts) =
     (let cleaned = TrimSpace text
      in if cleaned = [] then collectLoop builder parts
         else collectLoop
                ((if length builder > 0 then builder @ [CHR 0x0A, CHR 0x0A] else builder) @ cleaned)
                parts)"

definition collectStringParts :: "RawMessage list \<Rightarrow> string" where
  "collectStringParts parts = TrimSpace (collectLoop [] parts)"

definition extractText :: "exportContent \<Rightarrow> string" where
  "extractText content =
     (if ContentType content = ''text'' then collectStringParts (Parts content)
      else if ContentType content = ''multimodal_text'' then collectStringParts (Parts content)
      else [])"

text \<open>\<open>truncate\<close> is called with the limits 240 and 80 only.\<close>

definition truncate :: "string \<Rightarrow> nat \<Rightarrow> string" where
  "truncate text limit =
     (if length text \<le> limit then text
      else (let trimmed = TrimSpace (take limit text)
            in if \<not> HasSuffix trimmed ''...'' then trimmed @ ''...'' else trimmed))"

fun firstNonEmpty :: "string list \<Rightarrow> string" where
  "firstNonEmpty [] = []"
| "firstNonEmpty (v # values) =
     (if TrimSpace v \<noteq> [] then TrimSpace v else firstNonEmpty values)"

definition newDeterministicID :: "string \<Rightarrow> Time \<Rightarrow> string" where
  "newDeterministicID seed t =
     (let base = ReplaceSpaces (ToLower seed);
          base = (if base = [] then ''conversation'' else base)
      in base @ ''-'' @ FormatStamp t)"

subsection \<open>Reconstruction of the timeline\<close>

text \<open>The comparison handed to \<open>sort.Slice\<close> in \<open>timelineByTimestamps\<close>.\<close>

definition lessNode :: "exportNode \<Rightarrow> exportNode \<Rightarrow> bool" where
  "lessNode a b =
     (case (toTime (GetCreateTime (nodeMessage a)), toTime (GetCreateTime (nodeMessage b))) of
        (Some ti, Some tj) \<Rightarrow> if Equal ti tj then nodeID a < nodeID b else Before ti tj
      | (Some ti, None) \<Rightarrow> True
      | (None, Some tj) \<Rightarrow> False
      | (None, None) \<Rightarrow> nodeID a < nodeID b)"

text \<open>
  The timestamp that the comparison reads from a node, and the key it compares by:
  nodes with a timestamp first, then the instant, then the node id.
\<close>

abbreviation stampOf :: "exportNode \<Rightarrow> Time option" where
  "stampOf n \<equiv> toTime (GetCreateTime (nodeMessage n))"

definition nodeKey :: "exportNode \<Rightarrow> nat \<times> int \<times> int \<times> string" where
  "nodeKey n =
     (case stampOf n of
        Some t \<Rightarrow> (0, ext t, nsec t, nodeID n)
      | None \<Rightarrow> (1, 0, 0, nodeID n))"

text \<open>
  \<open>sort.Slice\<close> returns an arrangement of the slice that is sorted for the comparison.
  On slices of at most twelve elements it runs an insertion sort, which is the sort
  taken here: each element in turn moves left in the sorted part as long as it is less
  than its left neighbour. \<open>insertLast\<close> works on the sorted part read from right to
  left.
\<close>

fun insertLast :: "('a \<Rightarrow> 'a \<Rightarrow> bool) \<Rightarrow> 'a \<Rightarrow> 'a list \<Rightarrow> 'a list" where
  "insertLast lt x [] = [x]"
| "insertLast lt x (y # ys) = (if lt x y then y # insertLast lt x ys else x # y # ys)"

definition sortSlice :: "('a \<Rightarrow> 'a \<Rightarrow> bool) \<Rightarrow> 'a list \<Rightarrow> 'a list" where
  "sortSlice lt xs = rev (foldl (\<lambda>done x. insertLast lt x done) [] xs)"

definition timelineByTimestamps :: "exportConversation \<Rightarrow> exportNode list" where
  "timelineByTimestamps raw = sortSlice lessNode (map snd (Mapping raw))"

text \<open>
  The loop of \<open>traversalPath\<close>: \<open>seen\<close> is the set of keys that the Go map \<open>seen\<close> maps to
  true, \<open>path\<close> the slice built so far.
\<close>

function walk ::
  "(string \<times> exportNode) list \<Rightarrow> string set \<Rightarrow> string \<Rightarrow> exportNode list \<Rightarrow> exportNode list"
where
  "walk m seen nid path =
     (if nid = [] then path
      else (case map_of m nid of
              None \<Rightarrow> path
            | Some node \<Rightarrow>
                if nid \<in> seen then path @ [node]
                else walk m (insert nid seen) (Parent node) (path @ [node])))"
  by pat_completeness auto
termination
proof (relation "measure (\<lambda>(m, seen, nid, path). card (fst ` set m - seen))")
  show "wf (measure (\<lambda>(m, seen, nid, path). card (fst ` set m - seen)))"
    by simp
next
  fix m :: "(string \<times> exportNode) list" and seen :: "string set" and nid :: string
    and path :: "exportNode list" and node :: exportNode
  assume found: "map_of m nid = Some node" and fresh: "nid \<notin> seen"
  from found have "nid \<in> fst ` set m"
    by (metis map_of_SomeD fst_conv image_eqI)
  with fresh have "fst ` set m - insert nid seen \<subset> fst ` set m - seen"
    by blast
  then have "card (fst ` set m - insert nid seen) < card (fst ` set m - seen)"
    by (intro psubset_card_mono) simp_all
  then show "((m, insert nid seen, Parent node, path @ [node]), (m, seen, nid, path))
      \<in> measure (\<lambda>(m, seen, nid, path). card (fst ` set m - seen))"
    by simp
qed

declare walk.simps [simp del]

definition traversalPath :: "exportConversation \<Rightarrow> exportNode list" where
  "traversalPath raw =
     (if CurrentNode raw = [] then timelineByTimestamps raw
      else (let path = rev (walk (Mapping raw) {} (CurrentNode raw) [])
            in if length path = 0 then timelineByTimestamps raw else path))"

subsection \<open>Normalisation\<close>

definition initAcc :: acc where
  "initAcc = \<lparr>earliest = zeroTime, latest = zeroTime, hasEarliest = False, hasLatest = False,
     firstUser = [], firstAssistant = [], messages = []\<rparr>"

definition trackTime :: "Time \<Rightarrow> acc \<Rightarrow> acc" where
  "trackTime ts a =
     (let a1 = (if \<not> hasEarliest a \<or> Before ts (earliest a)
                then a\<lparr>earliest := ts, hasEarliest := True\<rparr> else a)
      in if \<not> hasLatest a1 \<or> After ts (latest a1)
         then a1\<lparr>latest := ts, hasLatest := True\<rparr> else a1)"

definition visit :: "exportNode \<Rightarrow> acc \<Rightarrow> acc" where
  "visit node a =
     (case nodeMessage node of
        None \<Rightarrow> a
      | Some msg \<Rightarrow>
          (let a1 = (case toTime (CreateTime msg) of Some ts \<Rightarrow> trackTime ts a | None \<Rightarrow> a);
               text = extractText (xmContent msg)
           in if text = [] then a1
              else (let role = ToLower (Role (xmAuthor msg))
                    in if role = ''user'' then
                         a1\<lparr>firstUser := (if firstUser a1 = [] then text else firstUser a1),
                            messages := messages a1 @
                              [\<lparr>MsgID = nodeID node, Author = role, Content = text,
                                MsgCreatedAt = timestampOrZero (CreateTime msg)\<rparr>]\<rparr>
                       else if role = ''assistant'' then
                         a1\<lparr>firstAssistant := (if firstAssistant a1 = [] then text else firstAssistant a1),
                            messages := messages a1 @
                              [\<lparr>MsgID = nodeID node, Author = role, Content = text,
                                MsgCreatedAt = timestampOrZero (CreateTime msg)\<rparr>]\<rparr>
                       else a1)))"

text \<open>
  The two blocks after the loop: without a message timestamp, the conversation-level
  creation time stands in for the earliest instant and the conversation-level update
  time for the latest.
\<close>

definition fallbackEarliest :: "float64 option \<Rightarrow> acc \<Rightarrow> acc" where
  "fallbackEarliest value a =
     (if \<not> hasEarliest a
      then (case toTime value of
              Some ts \<Rightarrow> a\<lparr>earliest := ts, hasEarliest := True\<rparr>
            | None \<Rightarrow> a)
      else a)"

definition fallbackLatest :: "float64 option \<Rightarrow> acc \<Rightarrow> acc" where
  "fallbackLatest value a =
     (if \<not> hasLatest a
      then (case toTime value of
              Some ts \<Rightarrow> a\<lparr>latest := ts, hasLatest := True\<rparr>
            | None \<Rightarrow> a)
      else a)"

text \<open>
  \<open>convertConversation\<close>; \<open>now\<close> is what \<open>time.Now()\<close> returns when the conversion
  reads the clock. The result is \<open>None\<close> where the Go function returns nil.
\<close>

definition convertConversation :: "Time \<Rightarrow> exportConversation \<Rightarrow> Conversation option" where
  "convertConversation now raw =
     (if length (Mapping raw) = 0 then None
      else (let timeline = traversalPath raw
            in if length timeline = 0 then None
               else (let a = fold visit timeline initAcc;
                         a = fallbackEarliest (rawCreateTime raw) a;
                         a = fallbackLatest (rawUpdateTime raw) a;
                         summary = firstNonEmpty [firstUser a, firstAssistant a];
                         summary = truncate summary 240;
                         summary = (if summary = [] then ''No summary available'' else summary);
                         title = TrimSpace (rawTitle raw);
                         title = (if title = []
                                  then (let title = truncate summary 80
                                        in if title = [] then ''Untitled conversation'' else title)
                                  else title);
                         dateStarted = (if hasEarliest a then FormatDate (UTC (earliest a)) else []);
                         createdAt = (if hasEarliest a then UTC (earliest a) else UTC now);
                         dateEnded = (if hasLatest a then FormatDate (UTC (latest a)) else []);
                         updatedAt = (if hasLatest a then UTC (latest a) else createdAt);
                         id = TrimSpace (ConversationID raw);
                         id = (if id = [] then TrimSpace (rawID raw) else id);
                         id = (if id = [] then newDeterministicID title createdAt else id)
                     in Some \<lparr>ID = id, Title = title, Summary = summary,
                              DateStarted = dateStarted, DateEnded = dateEnded, SourceID = id,
                              Messages = messages a, CreatedAt = createdAt,
                              UpdatedAt = updatedAt\<rparr>)))"

text \<open>
  \<open>LoadAndConvert\<close>: \<open>payload\<close> is what \<open>readExport\<close> returned for the file, and
  \<open>clock i\<close> the clock reading during the conversion of entry \<open>i\<close> of the export.
\<close>

fun convertLoop :: "(nat \<Rightarrow> Time) \<Rightarrow> nat \<Rightarrow> exportConversation list \<Rightarrow> Conversation list" where
  "convertLoop clock i [] = []"
| "convertLoop clock i (raw # rest) =
     (case convertConversation (clock i) raw of
        None \<Rightarrow> convertLoop clock (Suc i) rest
      | Some item \<Rightarrow> item # convertLoop clock (Suc i) rest)"

definition LoadAndConvert ::
  "(nat \<Rightarrow> Time) \<Rightarrow> error + exportConversation list \<Rightarrow> error + Conversation list" where
  "LoadAndConvert clock readExport =
     (case readExport of
        Inl err \<Rightarrow> Inl err
      | Inr payload \<Rightarrow> Inr (convertLoop clock 0 payload))"

section \<open>The store\<close>

text \<open>
  \<open>Upsert\<close> reads the clock once
  (\<open>now\<close>) and ends with \<open>saveLocked\<close>, whose file operations succeed or fail outside
  the program: \<open>io\<close> is their outcome, returned as it is. The entry is written to the
  map before the file is touched, so it is there whatever the outcome.
\<close>

definition saveLocked :: "error option \<Rightarrow> Store \<Rightarrow> error option" where
  "saveLocked io s = io"

definition Upsert :: "Time \<Rightarrow> error option \<Rightarrow> Conversation \<Rightarrow> Store \<Rightarrow> error option \<times> Store" where
  "Upsert now io conversation s =
     (let conversation =
            (case conversations s (ID conversation) of
               Some existing \<Rightarrow>
                 if IsZero (CreatedAt conversation)
                 then conversation\<lparr>CreatedAt := CreatedAt existing\<rparr> else conversation
             | None \<Rightarrow>
                 if IsZero (CreatedAt conversation)
                 then conversation\<lparr>CreatedAt := now\<rparr> else conversation);
          conversation =
            (if IsZero (UpdatedAt conversation)
             then conversation\<lparr>UpdatedAt := now\<rparr> else conversation);
          s = s\<lparr>conversations := (conversations s)(ID conversation \<mapsto> conversation)\<rparr>
      in (saveLocked io s, s))"

definition Get :: "Store \<Rightarrow> string \<Rightarrow> error + Conversation" where
  "Get s ident = (case conversations s ident of None \<Rightarrow> Inl ErrNotFound | Some item \<Rightarrow> Inr item)"

section \<open>Example inputs\<close>

definition exRecord :: "string \<Rightarrow> Time \<Rightarrow> Time \<Rightarrow> Conversation" where
  "exRecord ident created updated =
     \<lparr>ID = ident, Title = ''Hello'', Summary = ''Hello'', DateStarted = [], DateEnded = [],
      SourceID = ident, Messages = [], CreatedAt = created, UpdatedAt = updated\<rparr>"

definition exStore :: Store where
  "exStore = \<lparr>storePath = ''data/conversations_store.json'',
     conversations = [''c1'' \<mapsto> exRecord ''c1'' (Unix 1000 0) (Unix 2000 0),
                      ''c2'' \<mapsto> exRecord ''c2'' (Unix 3000 0) (Unix 4000 0)]\<rparr>"

text \<open>A node without message, a node with one text part, a whole number of seconds.\<close>

definition bareNode :: "string \<Rightarrow> string \<Rightarrow> exportNode" where
  "bareNode ident parent = \<lparr>nodeID = ident, Parent = parent, Children = [], nodeMessage = None\<rparr>"

definition textNode ::
  "string \<Rightarrow> string \<Rightarrow> string \<Rightarrow> float64 option \<Rightarrow> string \<Rightarrow> string \<Rightarrow> exportNode" where
  "textNode ident parent role stamp ctype txt =
     \<lparr>nodeID = ident, Parent = parent, Children = [],
      nodeMessage = Some \<lparr>xmID = ident, xmAuthor = \<lparr>Role = role\<rparr>, CreateTime = stamp,
        UpdateTime = None, xmContent = \<lparr>ContentType = ctype, Parts = [JString txt]\<rparr>\<rparr>\<rparr>"

definition seconds :: "int \<Rightarrow> float64 option" where
  "seconds s = Some \<lparr>whole = s, fracNanos = 0\<rparr>"

text \<open>
  An export entry with the given id (as \<open>id\<close> and \<open>conversation_id\<close>), leaf pointer and
  mapping, without title and conversation-level timestamps.
\<close>

definition export ::
  "string \<Rightarrow> string \<Rightarrow> (string \<times> exportNode) list \<Rightarrow> exportConversation" where
  "export cid current nodes = \<lparr>rawID = cid, ConversationID = cid, rawTitle = [],
     rawCreateTime = None, rawUpdateTime = None, CurrentNode = current, Mapping = nodes\<rparr>"

definition tsExport :: exportConversation where
  "tsExport = export ''c1'' []
     [(''a'', bareNode ''a'' []),
      (''b'', textNode ''b'' [] ''user'' (seconds 2000) ''text'' ''later''),
      (''c'', textNode ''c'' [] ''user'' (seconds 1000) ''text'' ''first''),
      (''d'', textNode ''d'' [] ''assistant'' (seconds 1000) ''text'' ''second'')]"

text \<open>Two nodes that name each other as parent.\<close>

definition cycExport :: exportConversation where
  "cycExport = export ''c1'' ''A''
     [(''A'', textNode ''A'' ''B'' ''user'' None ''text'' ''Hello''),
      (''B'', textNode ''B'' ''A'' ''assistant'' None ''text'' ''Hi there'')]"

text \<open>An entry without any id, with one user turn and no timestamp anywhere.\<close>

definition helloExport :: exportConversation where
  "helloExport = export [] ''n1'' [(''n1'', textNode ''n1'' [] ''user'' None ''text'' ''Hello'')]"

text \<open>An entry whose only turn is a user message of 300 letters.\<close>

definition longExport :: exportConversation where
  "longExport = export ''c1'' ''u''
     [(''u'', textNode ''u'' [] ''user'' (seconds 1000) ''text'' (replicate 300 (CHR ''a'')))]"

definition longRecord :: Conversation where
  "longRecord =
     \<lparr>ID = ''c1'', Title = replicate 80 (CHR ''a'') @ ''...'',
      Summary = replicate 240 (CHR ''a'') @ ''...'',
      DateStarted = ''1970-01-01'', DateEnded = ''1970-01-01'', SourceID = ''c1'',
      Messages = [\<lparr>MsgID = ''u'', Author = ''user'', Content = replicate 300 (CHR ''a''),
                   MsgCreatedAt = Unix 1000 0\<rparr>],
      CreatedAt = Unix 1000 0, UpdatedAt = Unix 1000 0\<rparr>"

text \<open>The record of a conversation without user or assistant text and without timestamps.\<close>

definition placeholderRecord :: "string \<Rightarrow> Time \<Rightarrow> Conversation" where
  "placeholderRecord ident t =
     \<lparr>ID = ident, Title = ''No summary available'', Summary = ''No summary available'',
      DateStarted = [], DateEnded = [], SourceID = ident, Messages = [],
      CreatedAt = t, UpdatedAt = t\<rparr>"

text \<open>A clock that reads the same instant at every call.\<close>

definition fixedClock :: "Time \<Rightarrow> nat \<Rightarrow> Time" where
  "fixedClock t i = t"

text \<open>
  A node that carries no message, or a message whose content type is neither \<open>text\<close>
  nor \<open>multimodal_text\<close>.
\<close>

definition textless :: "exportNode \<Rightarrow> bool" where
  "textless n =
     (case nodeMessage n of
        None \<Rightarrow> True
      | Some msg \<Rightarrow> ContentType (xmContent msg) \<noteq> ''text'' \<and>
                    ContentType (xmContent msg) \<noteq> ''multimodal_text'')"

declare dropRunes.simps [simp del]

section \<open>The merge policy of the store\<close>

text \<open>
  Claim C2. When the store already holds a record under the identifier of the incoming
  record, \<open>Upsert\<close> stores the incoming record with the creation instant of the existing
  record if the incoming one is the zero instant and with the incoming creation instant
  otherwise, and with the incoming update instant, or the clock reading if that is the
  zero instant. This holds whether or not the file could be written.
\<close>

theorem Upsert_existing_instants:
  assumes "conversations s (ID c) = Some existing"
  shows "conversations (snd (Upsert now io c s)) (ID c) =
           Some (c\<lparr>CreatedAt := (if IsZero (CreatedAt c) then CreatedAt existing else CreatedAt c),
                   UpdatedAt := (if IsZero (UpdatedAt c) then now else UpdatedAt c)\<rparr>)"
  using assms by (simp add: Upsert_def Let_def)

theorem Upsert_existing_instants_witness:
  "conversations exStore ''c1'' = Some (exRecord ''c1'' (Unix 1000 0) (Unix 2000 0)) \<and>
   conversations (snd (Upsert (Unix 9000 0) None (exRecord ''c1'' zeroTime zeroTime) exStore)) ''c1''
     = Some (exRecord ''c1'' (Unix 1000 0) (Unix 9000 0))"
  using Upsert_existing_instants [of exStore "exRecord ''c1'' zeroTime zeroTime"
      "exRecord ''c1'' (Unix 1000 0) (Unix 2000 0)" "Unix 9000 0" None]
  by (simp add: exStore_def exRecord_def IsZero_def zeroTime_def)

text \<open>
  Claim C9. \<open>Upsert\<close> of a record changes the entry under that record's identifier
  only: the store holds under every other identifier what it held before.
\<close>

theorem Upsert_frame:
  assumes "k \<noteq> ID c"
  shows "conversations (snd (Upsert now io c s)) k = conversations s k"
  using assms by (simp add: Upsert_def Let_def split: option.splits)

theorem Upsert_frame_witness:
  "''c2'' \<noteq> ID (exRecord ''c1'' zeroTime zeroTime) \<and>
   conversations (snd (Upsert (Unix 9000 0) None (exRecord ''c1'' zeroTime zeroTime) exStore)) ''c2''
     = Some (exRecord ''c2'' (Unix 3000 0) (Unix 4000 0))"
  using Upsert_frame [of "''c2''" "exRecord ''c1'' zeroTime zeroTime" "Unix 9000 0" None exStore]
  by (simp add: exStore_def exRecord_def)

section \<open>Reconstruction of the timeline\<close>

subsection \<open>The parent walk\<close>

lemma card_unseen_less:
  assumes "map_of m nid = Some node" and "nid \<notin> seen"
  shows "card (fst ` set m - insert nid seen) < card (fst ` set m - seen)"
proof -
  from assms(1) have "nid \<in> fst ` set m"
    by (metis map_of_SomeD fst_conv image_eqI)
  with assms(2) have "fst ` set m - insert nid seen \<subset> fst ` set m - seen"
    by blast
  then show ?thesis
    by (intro psubset_card_mono) simp_all
qed

lemma length_walk:
  "length (walk m seen nid path) \<le> length path + card (fst ` set m - seen) + 1"
proof (induction m seen nid path rule: walk.induct)
  case (1 m seen nid path)
  show ?case
  proof (cases "nid = []")
    case True
    then show ?thesis by (subst walk.simps) simp
  next
    case False
    show ?thesis
    proof (cases "map_of m nid")
      case None
      with False show ?thesis by (subst walk.simps) simp
    next
      case (Some node)
      show ?thesis
      proof (cases "nid \<in> seen")
        case True
        with False Some show ?thesis by (subst walk.simps) simp
      next
        case fresh: False
        from "1.IH" [OF False Some fresh]
        have "length (walk m (insert nid seen) (Parent node) (path @ [node]))
                \<le> length path + 1 + card (fst ` set m - insert nid seen) + 1"
          by simp
        moreover note card_unseen_less [OF Some fresh]
        ultimately show ?thesis
          using False Some fresh by (subst walk.simps) simp
      qed
    qed
  qed
qed

lemma mset_insertLast: "mset (insertLast lt x ys) = add_mset x (mset ys)"
  by (induction ys) simp_all

lemma mset_insertion_loop:
  "mset (foldl (\<lambda>done x. insertLast lt x done) acc xs) = mset acc + mset xs"
  by (induction xs arbitrary: acc) (simp_all add: mset_insertLast)

lemma mset_sortSlice: "mset (sortSlice lt xs) = mset xs"
  by (simp add: sortSlice_def mset_insertion_loop)

lemma length_sortSlice: "length (sortSlice lt xs) = length xs"
  by (metis mset_sortSlice size_mset)

lemma length_timelineByTimestamps: "length (timelineByTimestamps raw) = length (Mapping raw)"
  by (simp add: timelineByTimestamps_def length_sortSlice)

text \<open>
  Claim C6. The parent walk halts on every conversation graph, cyclic ones included: the
  loop of \<open>traversalPath\<close> is a total function (each round adds an unseen key of the
  mapping to \<open>seen\<close>), and the path it yields has at most one node more than the
  mapping has entries.
\<close>

theorem traversalPath_halts_bounded:
  "length (traversalPath raw) \<le> Suc (length (Mapping raw))"
proof -
  have "card (fst ` set (Mapping raw)) \<le> length (Mapping raw)"
    by (metis card_image_le card_length le_trans List.finite_set)
  with length_walk [of "Mapping raw" "{}" "CurrentNode raw" "[]"]
  have "length (walk (Mapping raw) {} (CurrentNode raw) []) \<le> Suc (length (Mapping raw))"
    by simp
  then show ?thesis
    by (simp add: traversalPath_def Let_def length_timelineByTimestamps)
qed

theorem traversalPath_halts_bounded_witness:
  "length (traversalPath cycExport) = 3 \<and>
   length (traversalPath cycExport) \<le> Suc (length (Mapping cycExport))"
  using traversalPath_halts_bounded [of cycExport]
  by (simp add: traversalPath_def cycExport_def export_def textNode_def walk.simps)

text \<open>
  Claim C7, at the failing input: on the two-node cycle the walk appends the node whose
  id repeats before it tests \<open>seen\<close>, so that node is twice in the path.
\<close>

theorem traversalPath_cycle_repeats_node:
  "map nodeID (traversalPath cycExport) = [''A'', ''B'', ''A''] \<and>
   \<not> distinct (map nodeID (traversalPath cycExport))"
  by (simp add: traversalPath_def cycExport_def export_def textNode_def walk.simps)

subsection \<open>The ordering by timestamps\<close>

lemma lessNode_nodeKey: "lessNode a b \<longleftrightarrow> nodeKey a < nodeKey b"
  by (auto simp: lessNode_def nodeKey_def Equal_def Before_def split: option.splits)

lemma set_insertLast: "set (insertLast lt x ys) = insert x (set ys)"
  by (induction ys) auto

lemma sorted_insertLast:
  fixes key :: "'a \<Rightarrow> 'k::linorder"
  assumes lt: "\<And>a b. lt a b \<longleftrightarrow> key a < key b"
  shows "sorted (rev (map key ys)) \<Longrightarrow> sorted (rev (map key (insertLast lt x ys)))"
proof (induction ys)
  case Nil
  then show ?case by simp
next
  case (Cons y ys)
  from Cons.prems have tail: "sorted (rev (map key ys))" and below: "\<forall>z \<in> set ys. key z \<le> key y"
    by (simp_all add: sorted_append)
  show ?case
  proof (cases "lt x y")
    case True
    then have "key x \<le> key y"
      using lt by simp
    with True tail below Cons.IH show ?thesis
      by (simp add: sorted_append set_insertLast)
  next
    case False
    then have "key y \<le> key x"
      using lt by (simp add: not_less)
    with below have "\<forall>z \<in> set ys. key z \<le> key x"
      by (meson order_trans)
    with False Cons.prems \<open>key y \<le> key x\<close> show ?thesis
      by (simp add: sorted_append)
  qed
qed

lemma sorted_insertion_loop:
  fixes key :: "'a \<Rightarrow> 'k::linorder"
  assumes lt: "\<And>a b. lt a b \<longleftrightarrow> key a < key b"
  shows "sorted (rev (map key acc)) \<Longrightarrow>
         sorted (rev (map key (foldl (\<lambda>done x. insertLast lt x done) acc xs)))"
  by (induction xs arbitrary: acc) (simp_all add: sorted_insertLast [OF lt])

lemma sorted_sortSlice:
  fixes key :: "'a \<Rightarrow> 'k::linorder"
  assumes "\<And>a b. lt a b \<longleftrightarrow> key a < key b"
  shows "sorted (map key (sortSlice lt xs))"
  using sorted_insertion_loop [OF assms, where acc = "[]" and xs = xs]
  by (simp add: sortSlice_def rev_map)

lemma sorted_wrt_lessNode: "sorted_wrt (\<lambda>a b. \<not> lessNode b a) ys \<longleftrightarrow> sorted (map nodeKey ys)"
  by (simp add: lessNode_nodeKey sorted_map not_less)

lemma nodeKey_pair:
  assumes "nodeKey a \<le> nodeKey b"
  shows "case (stampOf a, stampOf b) of
           (Some ti, Some tj) \<Rightarrow> Before ti tj \<or> (Equal ti tj \<and> nodeID a \<le> nodeID b)
         | (Some ti, None) \<Rightarrow> True
         | (None, Some tj) \<Rightarrow> False
         | (None, None) \<Rightarrow> nodeID a \<le> nodeID b"
  using assms
  by (auto simp: nodeKey_def Equal_def Before_def less_eq_prod_def split: option.splits)

lemma nodeKey_nodeID: "nodeKey a = nodeKey b \<Longrightarrow> nodeID a = nodeID b"
  by (cases "stampOf a"; cases "stampOf b") (simp_all add: nodeKey_def)

lemma sorted_unique:
  assumes d: "distinct (map nodeID xs)"
    and m: "mset ys = mset xs"
    and sx: "sorted (map nodeKey xs)" and sy: "sorted (map nodeKey ys)"
  shows "ys = xs"
proof -
  have sets: "set ys = set xs"
    using m by (rule mset_eq_setD)
  have injk: "inj_on nodeKey (set xs)"
  proof (rule inj_onI)
    fix a b assume a: "a \<in> set xs" and b: "b \<in> set xs" and k: "nodeKey a = nodeKey b"
    from k have "nodeID a = nodeID b"
      by (rule nodeKey_nodeID)
    moreover have "inj_on nodeID (set xs)"
      using d by (simp only: distinct_map)
    ultimately show "a = b"
      using a b by (rule_tac inj_onD)
  qed
  have dx: "distinct xs"
    using d by (simp only: distinct_map)
  with mset_eq_imp_distinct_iff [OF m] have dy: "distinct ys"
    by blast
  have dkx: "distinct (map nodeKey xs)"
    using dx injk by (simp only: distinct_map simp_thms)
  have dky: "distinct (map nodeKey ys)"
    using dy injk by (simp only: distinct_map sets simp_thms)
  have "inj_on nodeKey (set ys \<union> set xs)"
    using injk by (simp only: sets Un_absorb)
  then show ?thesis
    using sy dky sx dkx sets by (rule map_sorted_distinct_set_unique)
qed

text \<open>
  Claim C4, as amended. \<open>timelineByTimestamps\<close> returns the nodes of the mapping
  arranged so that nodes with a message timestamp come before nodes without one, nodes
  with timestamps are in ascending order of the instant, and nodes with equal instants,
  and nodes without timestamp among themselves, are in ascending order of the node id.
  When the node ids are pairwise distinct this arrangement is the only one that is
  sorted for the comparison, whatever the iteration order of the mapping.
\<close>

theorem timelineByTimestamps_order:
  "mset (timelineByTimestamps raw) = mset (map snd (Mapping raw)) \<and>
   (\<forall>j < length (timelineByTimestamps raw). \<forall>i < j.
      (case (stampOf (timelineByTimestamps raw ! i), stampOf (timelineByTimestamps raw ! j)) of
         (Some ti, Some tj) \<Rightarrow>
           Before ti tj \<or>
           (Equal ti tj \<and> nodeID (timelineByTimestamps raw ! i) \<le> nodeID (timelineByTimestamps raw ! j))
       | (Some ti, None) \<Rightarrow> True
       | (None, Some tj) \<Rightarrow> False
       | (None, None) \<Rightarrow> nodeID (timelineByTimestamps raw ! i) \<le> nodeID (timelineByTimestamps raw ! j))) \<and>
   (distinct (map (nodeID \<circ> snd) (Mapping raw)) \<longrightarrow>
      (\<forall>ys. mset ys = mset (map snd (Mapping raw)) \<and> sorted_wrt (\<lambda>a b. \<not> lessNode b a) ys
         \<longrightarrow> ys = timelineByTimestamps raw))"
proof (intro conjI allI impI)
  show perm: "mset (timelineByTimestamps raw) = mset (map snd (Mapping raw))"
    by (simp add: timelineByTimestamps_def mset_sortSlice)
  have srt: "sorted (map nodeKey (timelineByTimestamps raw))"
    unfolding timelineByTimestamps_def by (rule sorted_sortSlice) (rule lessNode_nodeKey)
  {
    fix j i assume j: "j < length (timelineByTimestamps raw)" and i: "i < j"
    from srt i j have "nodeKey (timelineByTimestamps raw ! i) \<le> nodeKey (timelineByTimestamps raw ! j)"
      by (simp add: sorted_iff_nth_mono del: sorted_map)
    then show "case (stampOf (timelineByTimestamps raw ! i), stampOf (timelineByTimestamps raw ! j)) of
         (Some ti, Some tj) \<Rightarrow>
           Before ti tj \<or>
           (Equal ti tj \<and> nodeID (timelineByTimestamps raw ! i) \<le> nodeID (timelineByTimestamps raw ! j))
       | (Some ti, None) \<Rightarrow> True
       | (None, Some tj) \<Rightarrow> False
       | (None, None) \<Rightarrow> nodeID (timelineByTimestamps raw ! i) \<le> nodeID (timelineByTimestamps raw ! j)"
      by (rule nodeKey_pair)
  }
  {
    fix ys
    assume d: "distinct (map (nodeID \<circ> snd) (Mapping raw))"
      and ys: "mset ys = mset (map snd (Mapping raw)) \<and> sorted_wrt (\<lambda>a b. \<not> lessNode b a) ys"
    from d perm have "distinct (map nodeID (timelineByTimestamps raw))"
      by (metis distinct_map mset_eq_imp_distinct_iff mset_map map_map)
    moreover from ys perm have "mset ys = mset (timelineByTimestamps raw)"
      by simp
    moreover from ys have "sorted (map nodeKey ys)"
      by (simp only: sorted_wrt_lessNode)
    ultimately show "ys = timelineByTimestamps raw"
      using srt by (intro sorted_unique)
  }
qed

theorem timelineByTimestamps_order_witness:
  "distinct (map (nodeID \<circ> snd) (Mapping tsExport)) \<and>
   mset [textNode ''c'' [] ''user'' (seconds 1000) ''text'' ''first'',
         textNode ''d'' [] ''assistant'' (seconds 1000) ''text'' ''second'',
         textNode ''b'' [] ''user'' (seconds 2000) ''text'' ''later'',
         bareNode ''a'' []] = mset (map snd (Mapping tsExport)) \<and>
   sorted_wrt (\<lambda>a b. \<not> lessNode b a)
        [textNode ''c'' [] ''user'' (seconds 1000) ''text'' ''first'',
         textNode ''d'' [] ''assistant'' (seconds 1000) ''text'' ''second'',
         textNode ''b'' [] ''user'' (seconds 2000) ''text'' ''later'',
         bareNode ''a'' []] \<and>
   [textNode ''c'' [] ''user'' (seconds 1000) ''text'' ''first'',
    textNode ''d'' [] ''assistant'' (seconds 1000) ''text'' ''second'',
    textNode ''b'' [] ''user'' (seconds 2000) ''text'' ''later'',
    bareNode ''a'' []] = timelineByTimestamps tsExport"
proof -
  let ?ys = "[textNode ''c'' [] ''user'' (seconds 1000) ''text'' ''first'',
         textNode ''d'' [] ''assistant'' (seconds 1000) ''text'' ''second'',
         textNode ''b'' [] ''user'' (seconds 2000) ''text'' ''later'',
         bareNode ''a'' []]"
  have d: "distinct (map (nodeID \<circ> snd) (Mapping tsExport))"
    by (simp add: tsExport_def export_def bareNode_def textNode_def)
  have m: "mset ?ys = mset (map snd (Mapping tsExport))"
    by (simp add: tsExport_def export_def)
  have s: "sorted_wrt (\<lambda>a b. \<not> lessNode b a) ?ys"
    by code_simp
  from timelineByTimestamps_order [of tsExport] d m s
  have "?ys = timelineByTimestamps tsExport"
    by blast
  with d m s show ?thesis
    by blast
qed

text \<open>
  Claim C4 as stated fails: a node without timestamp is placed after a node that has
  one, and two nodes with the same id and no timestamp are not ordered by the
  comparison, so the result follows the iteration order of the mapping.
\<close>

theorem timelineByTimestamps_stamped_first:
  "stampOf (bareNode ''a'' []) = None \<and>
   stampOf (textNode ''b'' [] ''user'' (seconds 2000) ''text'' ''later'') \<noteq> None \<and>
   timelineByTimestamps (export ''c1'' [] [(''a'', bareNode ''a'' []),
       (''b'', textNode ''b'' [] ''user'' (seconds 2000) ''text'' ''later'')])
     = [textNode ''b'' [] ''user'' (seconds 2000) ''text'' ''later'', bareNode ''a'' []] \<and>
   bareNode ''x'' ''p'' \<noteq> bareNode ''x'' ''q'' \<and>
   \<not> lessNode (bareNode ''x'' ''p'') (bareNode ''x'' ''q'') \<and>
   \<not> lessNode (bareNode ''x'' ''q'') (bareNode ''x'' ''p'') \<and>
   timelineByTimestamps (export ''c1'' [] [(''k1'', bareNode ''x'' ''p''), (''k2'', bareNode ''x'' ''q'')])
     \<noteq> timelineByTimestamps (export ''c1'' [] [(''k2'', bareNode ''x'' ''q''), (''k1'', bareNode ''x'' ''p'')])"
  by code_simp

text \<open>
  Claim C10. For a node without message payload the nil-safe accessor yields no create
  time, so the node has no timestamp: the comparison puts it after every node with a
  timestamp and orders it by node id against the other nodes without one, and the node
  is part of the timeline that \<open>timelineByTimestamps\<close> returns.
\<close>

theorem lessNode_without_message:
  assumes "nodeMessage n = None"
  shows "GetCreateTime (nodeMessage n) = None \<and> stampOf n = None \<and>
         (lessNode n m \<longleftrightarrow> stampOf m = None \<and> nodeID n < nodeID m) \<and>
         (lessNode m n \<longleftrightarrow> stampOf m \<noteq> None \<or> nodeID m < nodeID n) \<and>
         ((k, n) \<in> set (Mapping raw) \<longrightarrow> n \<in> set (timelineByTimestamps raw))"
proof -
  have none: "stampOf n = None"
    using assms by (simp add: GetCreateTime_def toTime_def)
  have "set (timelineByTimestamps raw) = snd ` set (Mapping raw)"
    by (metis timelineByTimestamps_def mset_sortSlice set_mset_mset set_map)
  then have "(k, n) \<in> set (Mapping raw) \<longrightarrow> n \<in> set (timelineByTimestamps raw)"
    by force
  with none assms show ?thesis
    by (auto simp: lessNode_def GetCreateTime_def split: option.splits)
qed

theorem lessNode_without_message_witness:
  "nodeMessage (bareNode ''a'' []) = None \<and>
   lessNode (textNode ''b'' [] ''user'' (seconds 2000) ''text'' ''later'') (bareNode ''a'' []) \<and>
   \<not> lessNode (bareNode ''a'' []) (textNode ''b'' [] ''user'' (seconds 2000) ''text'' ''later'') \<and>
   lessNode (bareNode ''a'' []) (bareNode ''z'' []) \<and>
   bareNode ''a'' [] \<in> set (timelineByTimestamps tsExport)"
proof -
  have n: "nodeMessage (bareNode ''a'' []) = None"
    by (simp add: bareNode_def)
  have s: "stampOf (textNode ''b'' [] ''user'' (seconds 2000) ''text'' ''later'') \<noteq> None"
    by code_simp
  have z: "stampOf (bareNode ''z'' []) = None \<and> nodeID (bareNode ''a'' []) < nodeID (bareNode ''z'' [])"
    by code_simp
  have k: "(''a'', bareNode ''a'' []) \<in> set (Mapping tsExport)"
    by (simp add: tsExport_def export_def)
  from lessNode_without_message [OF n, of "textNode ''b'' [] ''user'' (seconds 2000) ''text'' ''later''" "''a''" tsExport]
    lessNode_without_message [OF n, of "bareNode ''z'' []" "''a''" tsExport] n s z k
  show ?thesis
    by blast
qed

section \<open>Timestamp parsing\<close>

lemma int64_id: "- (2 ^ 63) \<le> x \<Longrightarrow> x < 2 ^ 63 \<Longrightarrow> int64 x = x"
  by (simp add: int64_def)

lemma int64_add_left: "int64 (int64 a + b) = int64 (a + b)"
  by (simp add: int64_def mod_simps algebra_simps)

lemma int64_zero_iff:
  assumes "- (2 ^ 64) < x" and "x < 2 ^ 64"
  shows "int64 x = 0 \<longleftrightarrow> x = 0"
proof
  assume "int64 x = 0"
  then have m: "(x + 2 ^ 63) mod 2 ^ 64 = 2 ^ 63"
    by (simp add: int64_def)
  define k where "k = (x + 2 ^ 63) div (2 ^ 64 :: int)"
  have "x + 2 ^ 63 = 2 ^ 64 * k + (x + 2 ^ 63) mod 2 ^ 64"
    unfolding k_def by (rule mult_div_mod_eq [symmetric])
  with m have x: "x = 18446744073709551616 * k"
    by simp
  with assms have "- 1 < k" and "k < 1"
    by simp_all
  then have "k = 0"
    by simp
  with x show "x = 0"
    by simp
next
  assume "x = 0"
  then show "int64 x = 0" by (simp add: int64_def)
qed

lemma Unix_normal:
  assumes lo: "- (2 ^ 63) \<le> n" and hi: "n < 2 ^ 63"
  shows "Unix s n = \<lparr>ext = int64 (s + n div 1000000000 + unixToInternal), nsec = n mod 1000000000\<rparr>"
proof -
  consider (small) "0 \<le> n" "n < 1000000000" | (big) "1000000000 \<le> n" | (neg) "n < 0"
    by linarith
  then show ?thesis
  proof cases
    case small
    then show ?thesis
      by (simp add: Unix_def)
  next
    case big
    define q where "q = n div 1000000000"
    have sd: "n sdiv 1000000000 = q"
      using big by (simp add: signed_divide_int_def q_def)
    have split: "n = 1000000000 * q + n mod 1000000000"
      unfolding q_def by simp
    have r: "0 \<le> n mod 1000000000" "n mod 1000000000 < 1000000000"
      by simp_all
    have q0: "0 \<le> q"
      using big by (simp add: q_def)
    have "0 \<le> q * 1000000000" "q * 1000000000 < 2 ^ 63"
      using q0 split r hi by simp_all
    then have a: "int64 (q * 1000000000) = q * 1000000000"
      by (simp add: int64_id)
    have b: "n - q * 1000000000 = n mod 1000000000"
      using split by simp
    have c: "int64 (n mod 1000000000) = n mod 1000000000"
      using r by (simp add: int64_id)
    have nn: "\<not> n mod 1000000000 < 0"
      by simp
    show ?thesis
      using big by (simp add: Unix_def sd Let_def a b c nn int64_add_left flip: q_def)
  next
    case neg
    define m where "m = - n"
    define p where "p = m div 1000000000"
    have m: "0 < m" "m \<le> 2 ^ 63" "n = - m"
      using neg lo by (simp_all add: m_def)
    have sd: "n sdiv 1000000000 = - p"
      using m by (simp add: signed_divide_int_def p_def)
    have split: "m = 1000000000 * p + m mod 1000000000"
      unfolding p_def by simp
    have r: "0 \<le> m mod 1000000000" "m mod 1000000000 < 1000000000"
      by simp_all
    have p0: "0 \<le> p"
      using m by (simp add: p_def)
    have "- (2 ^ 63) \<le> - p * 1000000000" "- p * 1000000000 < 2 ^ 63"
      using p0 split r m by simp_all
    then have a: "int64 (- p * 1000000000) = - p * 1000000000"
      by (rule int64_id)
    have b: "n - (- p * 1000000000) = - (m mod 1000000000)"
      using split m by simp
    have c: "int64 (- (m mod 1000000000)) = - (m mod 1000000000)"
      using r by (simp add: int64_id)
    show ?thesis
    proof (cases "m mod 1000000000 = 0")
      case True
      then have "n div 1000000000 = - p" "n mod 1000000000 = 0"
        using m by (simp_all add: zdiv_zminus1_eq_if zmod_zminus1_eq_if p_def)
      with True neg show ?thesis
        using a b c by (simp add: Unix_def sd Let_def int64_add_left)
    next
      case False
      then have dm: "n div 1000000000 = - p - 1" "n mod 1000000000 = 1000000000 - m mod 1000000000"
        using m by (simp_all add: zdiv_zminus1_eq_if zmod_zminus1_eq_if p_def)
      have d: "int64 (1000000000 - m mod 1000000000) = 1000000000 - m mod 1000000000"
        using r by (simp add: int64_id)
      have e0: "s + (- p - 1) + unixToInternal = s - p - 1 + unixToInternal"
        by simp
      have e: "int64 (int64 (int64 (s - p) - 1) + unixToInternal) = int64 (s + (- p - 1) + unixToInternal)"
        unfolding e0
        using int64_add_left [of "s - p" "- 1"] int64_add_left [of "s - p - 1" unixToInternal]
        by simp
      from False r have lt: "- (m mod 1000000000) < 0"
        by simp
      show ?thesis
        using neg lt a b c d e dm by (simp add: Unix_def sd Let_def)
    qed
  qed
qed

lemma toTime_Some_None_iff:
  assumes s: "- (2 ^ 63) \<le> s" "s < 2 ^ 63" and n: "- (2 ^ 63) \<le> n" "n < 2 ^ 63"
  shows "toTime (Some \<lparr>whole = s, fracNanos = n\<rparr>) = None
           \<longleftrightarrow> s * 1000000000 + n = - 62135596800000000000"
proof -
  define d where "d = n div 1000000000"
  define r where "r = n mod 1000000000"
  have split: "n = 1000000000 * d + r"
    unfolding d_def r_def by simp
  have r: "0 \<le> r" "r < 1000000000"
    by (simp_all add: r_def)
  have "(- (2 ^ 63)) div 1000000000 \<le> d" "d \<le> (2 ^ 63) div 1000000000"
    unfolding d_def using n by (intro zdiv_mono1; simp)+
  then have d: "- 9223372037 \<le> d" "d \<le> 9223372036"
    by simp_all
  have "- (2 ^ 64) < s + d + unixToInternal" "s + d + unixToInternal < 2 ^ 64"
    using s d by (simp_all add: unixToInternal_def)
  then have z: "int64 (s + d + unixToInternal) = 0 \<longleftrightarrow> s + d + unixToInternal = 0"
    by (rule int64_zero_iff)
  have "toTime (Some \<lparr>whole = s, fracNanos = n\<rparr>) = None
          \<longleftrightarrow> int64 (s + d + unixToInternal) = 0 \<and> r = 0"
    by (simp add: toTime_def UTC_def IsZero_def Unix_normal [OF n] d_def r_def)
  also have "\<dots> \<longleftrightarrow> s + d = - 62135596800 \<and> r = 0"
    unfolding z by (auto simp: unixToInternal_def)
  also have "\<dots> \<longleftrightarrow> s * 1000000000 + n = - 62135596800000000000"
  proof
    assume "s + d = - 62135596800 \<and> r = 0"
    with split show "s * 1000000000 + n = - 62135596800000000000"
      by simp
  next
    assume total: "s * 1000000000 + n = - 62135596800000000000"
    define k where "k = - 62135596800 - s - d"
    from total split have rk: "r = 1000000000 * k"
      by (simp add: k_def)
    with r have "- 1 < k" "k < 1"
      by simp_all
    then have "k = 0"
      by simp
    with rk show "s + d = - 62135596800 \<and> r = 0"
      by (simp add: k_def)
  qed
  finally show ?thesis .
qed

text \<open>
  Claim C8, as amended. \<open>toTime\<close> treats a timestamp as absent when it is nil or when
  the decoded instant is the zero instant of the time package, January 1 of year 1,
  00:00:00 UTC, which is 62135596800 seconds before the epoch. The epoch timestamp
  \<open>0.0\<close> decodes to 1970-01-01, is not the zero instant, and is kept.
\<close>

theorem toTime_absent_iff:
  assumes "- (2 ^ 63) \<le> s" "s < 2 ^ 63" and "- (2 ^ 63) \<le> n" "n < 2 ^ 63"
  shows "toTime None = None \<and>
         (toTime (Some \<lparr>whole = s, fracNanos = n\<rparr>) = None
            \<longleftrightarrow> s * 1000000000 + n = - 62135596800 * 1000000000) \<and>
         toTime (Some \<lparr>whole = 0, fracNanos = 0\<rparr>) = Some \<lparr>ext = 62135596800, nsec = 0\<rparr> \<and>
         FormatDate \<lparr>ext = 62135596800, nsec = 0\<rparr> = ''1970-01-01''"
proof -
  have "toTime None = None"
    by (simp add: toTime_def)
  moreover have "toTime (Some \<lparr>whole = 0, fracNanos = 0\<rparr>) = Some \<lparr>ext = 62135596800, nsec = 0\<rparr>"
    by (simp add: toTime_def Unix_def UTC_def IsZero_def int64_def unixToInternal_def)
  moreover have "FormatDate \<lparr>ext = 62135596800, nsec = 0\<rparr> = ''1970-01-01''"
    by code_simp
  ultimately show ?thesis
    using toTime_Some_None_iff [OF assms] by simp
qed

theorem toTime_absent_iff_witness:
  "- (2 ^ 63) \<le> (- 62135596800 :: int) \<and> (- 62135596800 :: int) < 2 ^ 63 \<and>
   - (2 ^ 63) \<le> (0 :: int) \<and> (0 :: int) < 2 ^ 63 \<and>
   toTime (Some \<lparr>whole = - 62135596800, fracNanos = 0\<rparr>) = None \<and>
   toTime (Some \<lparr>whole = 0, fracNanos = 0\<rparr>) = Some \<lparr>ext = 62135596800, nsec = 0\<rparr>"
  using toTime_absent_iff [of "- 62135596800" 0] by simp

text \<open>Claim C8 as stated fails: the epoch timestamp \<open>0.0\<close> is not dropped.\<close>

theorem toTime_epoch_zero_kept:
  "toTime (Some \<lparr>whole = 0, fracNanos = 0\<rparr>) = Some \<lparr>ext = 62135596800, nsec = 0\<rparr> \<and>
   toTime (Some \<lparr>whole = 0, fracNanos = 0\<rparr>) \<noteq> toTime None"
  by (simp add: toTime_def Unix_def UTC_def IsZero_def int64_def unixToInternal_def)

section \<open>Normalisation\<close>

subsection \<open>Trimming and truncation\<close>

lemma length_dropRunes: "length (dropRunes rs s) \<le> length s"
proof (induction rs s rule: dropRunes.induct)
  case (1 rs s)
  show ?case
  proof (cases "runeWidth rs s = 0 \<or> s = []")
    case True
    then show ?thesis by (subst dropRunes.simps) simp
  next
    case False
    with "1.IH" have "length (dropRunes rs (drop (runeWidth rs s) s)) \<le> length s"
      by simp
    with False show ?thesis by (subst dropRunes.simps) simp
  qed
qed

lemma length_TrimSpace: "length (TrimSpace s) \<le> length s"
proof -
  have "length (TrimSpace s) \<le> length (TrimLeft s)"
    using length_dropRunes [of "map rev spaceRunes" "rev (TrimLeft s)"]
    by (simp add: TrimSpace_def TrimRight_def)
  also have "\<dots> \<le> length s"
    by (simp add: TrimLeft_def length_dropRunes)
  finally show ?thesis .
qed

lemma length_truncate: "length (truncate text limit) \<le> limit + 3"
proof (cases "length text \<le> limit")
  case True
  then show ?thesis by (simp add: truncate_def)
next
  case False
  have "length (TrimSpace (take limit text)) \<le> limit"
    using length_TrimSpace [of "take limit text"] by simp
  with False show ?thesis
    by (simp add: truncate_def Let_def)
qed

lemma truncate_ellipsis: "limit < length text \<Longrightarrow> HasSuffix (truncate text limit) ''...''"
  by (simp add: truncate_def Let_def HasSuffix_def suffix_def)

lemma TrimSpace_as: "TrimSpace (replicate 300 (CHR ''a'')) = replicate 300 (CHR ''a'')"
  by code_simp

lemma truncate_as: "truncate (replicate 300 (CHR ''a'')) 240 = replicate 240 (CHR ''a'') @ ''...''"
  by code_simp

lemma TrimSpace_Nil: "TrimSpace [] = []"
  by code_simp

subsection \<open>The fields of the record\<close>

lemma convertConversation_nonempty:
  assumes "convertConversation now raw = Some r"
  shows "length (Mapping raw) \<noteq> 0" and "length (traversalPath raw) \<noteq> 0"
proof -
  show m: "length (Mapping raw) \<noteq> 0"
    using assms by (rule contrapos_pn) (simp add: convertConversation_def)
  show "length (traversalPath raw) \<noteq> 0"
    using assms m by (rule_tac contrapos_pn [of "convertConversation now raw = Some r"]) (simp_all add: convertConversation_def)
qed

lemma fallback_keeps:
  "firstUser (fallbackEarliest v a) = firstUser a"
  "firstAssistant (fallbackEarliest v a) = firstAssistant a"
  "messages (fallbackEarliest v a) = messages a"
  "firstUser (fallbackLatest v a) = firstUser a"
  "firstAssistant (fallbackLatest v a) = firstAssistant a"
  "messages (fallbackLatest v a) = messages a"
  by (simp_all add: fallbackEarliest_def fallbackLatest_def split: option.splits)

lemma Summary_convertConversation:
  assumes "convertConversation now raw = Some r"
  shows "Summary r =
    (if truncate (firstNonEmpty [firstUser (fold visit (traversalPath raw) initAcc),
                                 firstAssistant (fold visit (traversalPath raw) initAcc)]) 240 = []
     then ''No summary available''
     else truncate (firstNonEmpty [firstUser (fold visit (traversalPath raw) initAcc),
                                   firstAssistant (fold visit (traversalPath raw) initAcc)]) 240)"
proof -
  note ne = convertConversation_nonempty [OF assms]
  from assms ne have "Some (Summary r) = map_option Summary (convertConversation now raw)"
    by simp
  also have "\<dots> = Some (if truncate (firstNonEmpty [firstUser (fold visit (traversalPath raw) initAcc),
                                 firstAssistant (fold visit (traversalPath raw) initAcc)]) 240 = []
     then ''No summary available''
     else truncate (firstNonEmpty [firstUser (fold visit (traversalPath raw) initAcc),
                                   firstAssistant (fold visit (traversalPath raw) initAcc)]) 240)"
    using ne by (simp add: convertConversation_def Let_def fallback_keeps)
  finally show ?thesis by simp
qed

lemma Messages_convertConversation:
  assumes "convertConversation now raw = Some r"
  shows "Messages r = messages (fold visit (traversalPath raw) initAcc)"
proof -
  note ne = convertConversation_nonempty [OF assms]
  from assms have "Some (Messages r) = map_option Messages (convertConversation now raw)"
    by simp
  also have "\<dots> = Some (messages (fold visit (traversalPath raw) initAcc))"
    using ne by (simp add: convertConversation_def Let_def fallback_keeps)
  finally show ?thesis by simp
qed

lemma longExport_converts: "convertConversation now longExport = Some longRecord"
  by code_simp

lemma longExport_firstUser:
  "firstUser (fold visit (traversalPath longExport) initAcc) = replicate 300 (CHR ''a'')"
  by code_simp

text \<open>
  Claim C3, as amended. A summary has at most 243 characters: \<open>truncate\<close> cuts the text
  at 240 characters and then appends the three characters of the ellipsis. It ends with
  the ellipsis whenever the text was longer than 240 characters. When the first
  non-empty user text is 300 letters \<open>a\<close>, the summary is the first 240 of them followed
  by the ellipsis, 243 characters in all.
\<close>

theorem summary_at_most_243:
  assumes "convertConversation now raw = Some r"
  shows "length (Summary r) \<le> 243 \<and>
         (240 < length (firstNonEmpty [firstUser (fold visit (traversalPath raw) initAcc),
                                       firstAssistant (fold visit (traversalPath raw) initAcc)])
            \<longrightarrow> HasSuffix (Summary r) ''...'') \<and>
         (firstUser (fold visit (traversalPath raw) initAcc) = replicate 300 (CHR ''a'')
            \<longrightarrow> Summary r = replicate 240 (CHR ''a'') @ ''...'' \<and> length (Summary r) = 243)"
proof (intro conjI impI)
  note sm = Summary_convertConversation [OF assms]
  have "length (truncate (firstNonEmpty [firstUser (fold visit (traversalPath raw) initAcc),
             firstAssistant (fold visit (traversalPath raw) initAcc)]) 240) \<le> 243"
    using length_truncate [of _ 240] by simp
  then show "length (Summary r) \<le> 243"
    unfolding sm by simp
  {
    assume "240 < length (firstNonEmpty [firstUser (fold visit (traversalPath raw) initAcc),
                                       firstAssistant (fold visit (traversalPath raw) initAcc)])"
    then have e: "HasSuffix (truncate (firstNonEmpty [firstUser (fold visit (traversalPath raw) initAcc),
                                       firstAssistant (fold visit (traversalPath raw) initAcc)]) 240) ''...''"
      by (rule truncate_ellipsis)
    then have "truncate (firstNonEmpty [firstUser (fold visit (traversalPath raw) initAcc),
                                       firstAssistant (fold visit (traversalPath raw) initAcc)]) 240 \<noteq> []"
      by (auto simp: HasSuffix_def)
    with e show "HasSuffix (Summary r) ''...''"
      unfolding sm by simp
  }
  {
    assume u: "firstUser (fold visit (traversalPath raw) initAcc) = replicate 300 (CHR ''a'')"
    have "firstNonEmpty [firstUser (fold visit (traversalPath raw) initAcc),
                         firstAssistant (fold visit (traversalPath raw) initAcc)]
            = replicate 300 (CHR ''a'')"
      unfolding u by (simp add: TrimSpace_as)
    then show s: "Summary r = replicate 240 (CHR ''a'') @ ''...''"
      unfolding sm by (simp add: truncate_as)
    show "length (Summary r) = 243"
      unfolding s by simp
  }
qed

theorem summary_at_most_243_witness:
  "convertConversation (Unix 1704067200 0) longExport = Some longRecord \<and>
   firstUser (fold visit (traversalPath longExport) initAcc) = replicate 300 (CHR ''a'') \<and>
   length (Summary longRecord) \<le> 243 \<and>
   HasSuffix (Summary longRecord) ''...'' \<and>
   Summary longRecord = replicate 240 (CHR ''a'') @ ''...''"
proof -
  note c = longExport_converts [of "Unix 1704067200 0"]
  note u = longExport_firstUser
  have "240 < length (firstNonEmpty [firstUser (fold visit (traversalPath longExport) initAcc),
                        firstAssistant (fold visit (traversalPath longExport) initAcc)])"
    unfolding u by (simp add: TrimSpace_as)
  with summary_at_most_243 [OF c] c u show ?thesis
    by blast
qed

text \<open>Claim C3 as stated fails: the summary of the 300 letters has 243 characters, not 240.\<close>

theorem summary_of_300_letters:
  "convertConversation (Unix 1704067200 0) longExport = Some longRecord \<and>
   Summary longRecord = replicate 240 (CHR ''a'') @ ''...'' \<and>
   length (Summary longRecord) = 243"
  using longExport_converts [of "Unix 1704067200 0"] by (simp add: longRecord_def)

subsection \<open>Conversations without text\<close>

lemma set_walk: "set (walk m seen nid path) \<subseteq> set path \<union> snd ` set m"
proof (induction m seen nid path rule: walk.induct)
  case (1 m seen nid path)
  show ?case
  proof (cases "nid = []")
    case True
    then show ?thesis by (subst walk.simps) simp
  next
    case False
    show ?thesis
    proof (cases "map_of m nid")
      case None
      with False show ?thesis by (subst walk.simps) simp
    next
      case (Some node)
      then have node: "node \<in> snd ` set m"
        by (metis map_of_SomeD snd_conv image_eqI)
      show ?thesis
      proof (cases "nid \<in> seen")
        case True
        with False Some node show ?thesis by (subst walk.simps) auto
      next
        case fresh: False
        from "1.IH" [OF False Some fresh] node
        have "set (walk m (insert nid seen) (Parent node) (path @ [node])) \<subseteq> set path \<union> snd ` set m"
          by auto
        with False Some fresh show ?thesis by (subst walk.simps) simp
      qed
    qed
  qed
qed

lemma set_timelineByTimestamps: "set (timelineByTimestamps raw) = snd ` set (Mapping raw)"
  by (metis timelineByTimestamps_def mset_sortSlice set_mset_mset set_map)

lemma set_traversalPath: "set (traversalPath raw) \<subseteq> snd ` set (Mapping raw)"
  using set_walk [of "Mapping raw" "{}" "CurrentNode raw" "[]"]
  by (simp add: traversalPath_def Let_def set_timelineByTimestamps)

lemma traversalPath_nonempty:
  assumes "Mapping raw \<noteq> []"
  shows "traversalPath raw \<noteq> []"
proof -
  from assms have t: "timelineByTimestamps raw \<noteq> []"
    using length_timelineByTimestamps [of raw] by (metis length_0_conv)
  show ?thesis
  proof (cases "CurrentNode raw = [] \<or> walk (Mapping raw) {} (CurrentNode raw) [] = []")
    case True
    with t show ?thesis
      by (auto simp: traversalPath_def Let_def)
  next
    case False
    then show ?thesis
      by (simp add: traversalPath_def Let_def)
  qed
qed

lemma convertConversation_None_iff: "convertConversation now raw = None \<longleftrightarrow> Mapping raw = []"
proof (cases "Mapping raw = []")
  case True
  then show ?thesis
    by (simp add: convertConversation_def)
next
  case False
  with traversalPath_nonempty [OF False] show ?thesis
    by (simp add: convertConversation_def Let_def split del: if_split)
qed

lemma trackTime_keeps:
  "firstUser (trackTime ts a) = firstUser a" "firstAssistant (trackTime ts a) = firstAssistant a"
  "messages (trackTime ts a) = messages a"
  by (simp_all add: trackTime_def Let_def)

lemma visit_textless:
  assumes "textless n"
  shows "firstUser (visit n a) = firstUser a" "firstAssistant (visit n a) = firstAssistant a"
    "messages (visit n a) = messages a"
proof -
  have "visit n a = a \<or> (\<exists>ts. visit n a = trackTime ts a)"
  proof (cases "nodeMessage n")
    case None
    then show ?thesis by (simp add: visit_def)
  next
    case (Some msg)
    with assms have "extractText (xmContent msg) = []"
      by (simp add: textless_def extractText_def)
    with Some show ?thesis
      by (cases "toTime (CreateTime msg)") (auto simp: visit_def Let_def)
  qed
  then show "firstUser (visit n a) = firstUser a" "firstAssistant (visit n a) = firstAssistant a"
    "messages (visit n a) = messages a"
    by (auto simp: trackTime_keeps)
qed

lemma fold_visit_textless:
  assumes "\<forall>n \<in> set ns. textless n"
  shows "firstUser (fold visit ns a) = firstUser a \<and> firstAssistant (fold visit ns a) = firstAssistant a \<and>
         messages (fold visit ns a) = messages a"
  using assms by (induction ns arbitrary: a) (simp_all add: visit_textless)

text \<open>
  Claim C5, as amended. A conversation is left out of the record list only when its
  mapping is empty. A conversation whose mapping is not empty and holds only nodes without
  message, or only messages of content types other than \<open>text\<close> and \<open>multimodal_text\<close>,
  yields a record with an empty message list and the placeholder summary.
\<close>

theorem convertConversation_textless:
  "(convertConversation now raw = None \<longleftrightarrow> Mapping raw = []) \<and>
   (Mapping raw \<noteq> [] \<and> (\<forall>n \<in> snd ` set (Mapping raw). textless n) \<longrightarrow>
      (\<exists>r. convertConversation now raw = Some r \<and> Messages r = [] \<and>
            Summary r = ''No summary available''))"
proof (intro conjI impI)
  show "convertConversation now raw = None \<longleftrightarrow> Mapping raw = []"
    by (rule convertConversation_None_iff)
next
  assume h: "Mapping raw \<noteq> [] \<and> (\<forall>n \<in> snd ` set (Mapping raw). textless n)"
  then obtain r where r: "convertConversation now raw = Some r"
    using convertConversation_None_iff [of now raw] by auto
  from h set_traversalPath [of raw] have "\<forall>n \<in> set (traversalPath raw). textless n"
    by blast
  then have quiet: "firstUser (fold visit (traversalPath raw) initAcc) = []"
      "firstAssistant (fold visit (traversalPath raw) initAcc) = []"
      "messages (fold visit (traversalPath raw) initAcc) = []"
    using fold_visit_textless [of "traversalPath raw" initAcc] by (simp_all add: initAcc_def)
  have "Messages r = []"
    using Messages_convertConversation [OF r] quiet by simp
  moreover have "Summary r = ''No summary available''"
    unfolding Summary_convertConversation [OF r] quiet
    by (simp add: TrimSpace_Nil truncate_def)
  ultimately show "\<exists>r. convertConversation now raw = Some r \<and> Messages r = [] \<and>
            Summary r = ''No summary available''"
    using r by blast
qed

theorem convertConversation_textless_witness:
  "Mapping (export ''c1'' [] [(''a'', bareNode ''a'' [])]) \<noteq> [] \<and>
   textless (bareNode ''a'' []) \<and>
   map_option Messages (convertConversation (Unix 1704067200 0)
     (export ''c1'' [] [(''a'', bareNode ''a'' [])])) = Some [] \<and>
   map_option Summary (convertConversation (Unix 1704067200 0)
     (export ''c1'' [] [(''a'', bareNode ''a'' [])])) = Some ''No summary available''"
proof -
  have m: "Mapping (export ''c1'' [] [(''a'', bareNode ''a'' [])]) \<noteq> []"
    by (simp add: export_def)
  have t: "textless (bareNode ''a'' [])"
    by (simp add: textless_def bareNode_def)
  then have "\<forall>n \<in> snd ` set (Mapping (export ''c1'' [] [(''a'', bareNode ''a'' [])])). textless n"
    by (simp add: export_def)
  with convertConversation_textless [of "Unix 1704067200 0" "export ''c1'' [] [(''a'', bareNode ''a'' [])]"] m
  obtain r where "convertConversation (Unix 1704067200 0) (export ''c1'' [] [(''a'', bareNode ''a'' [])]) = Some r"
    and "Messages r = []" and "Summary r = ''No summary available''"
    by blast
  with m t show ?thesis
    by simp
qed

text \<open>
  Claim C5 as stated fails: an export of one conversation with only a node without
  message and one conversation with only a message of content type \<open>code\<close> yields two
  records.
\<close>

theorem LoadAndConvert_keeps_textless:
  "LoadAndConvert (fixedClock (Unix 1704067200 0))
     (Inr [export ''c1'' [] [(''a'', bareNode ''a'' [])],
           export ''c2'' ''t'' [(''t'', textNode ''t'' [] ''tool'' None ''code'' ''print(1)'')]])
   = Inr [placeholderRecord ''c1'' (Unix 1704067200 0),
          placeholderRecord ''c2'' (Unix 1704067200 0)]"
  by code_simp

subsection \<open>The fallback identifier\<close>

text \<open>
  Claim C1, at the failing input. An export entry without id, conversation id and
  timestamps gets its creation instant from the clock, and the fallback identifier is
  built from that instant: two runs on the same export, one second apart, yield
  different identifiers.
\<close>

theorem fallback_id_follows_clock:
  "LoadAndConvert (fixedClock (Unix 1704067200 0)) (Inr [helloExport])
     = Inr [\<lparr>ID = ''hello-20240101000000'', Title = ''Hello'', Summary = ''Hello'',
            DateStarted = [], DateEnded = [], SourceID = ''hello-20240101000000'',
            Messages = [\<lparr>MsgID = ''n1'', Author = ''user'', Content = ''Hello'',
                         MsgCreatedAt = zeroTime\<rparr>],
            CreatedAt = Unix 1704067200 0, UpdatedAt = Unix 1704067200 0\<rparr>] \<and>
   LoadAndConvert (fixedClock (Unix 1704067201 0)) (Inr [helloExport])
     = Inr [\<lparr>ID = ''hello-20240101000001'', Title = ''Hello'', Summary = ''Hello'',
            DateStarted = [], DateEnded = [], SourceID = ''hello-20240101000001'',
            Messages = [\<lparr>MsgID = ''n1'', Author = ''user'', Content = ''Hello'',
                         MsgCreatedAt = zeroTime\<rparr>],
            CreatedAt = Unix 1704067201 0, UpdatedAt = Unix 1704067201 0\<rparr>]"
  by code_simp

end
